theory Spec2Isabelle
  imports Complex_Main
begin

section \<open>JavaScript numbers\<close>

text \<open>
  A JavaScript number is an IEEE 754 double: a finite value, an infinity or NaN. The
  finite values are real numbers; the two zeros are one value \<open>Fin 0\<close> (no comparison
  of the source tells them apart).
\<close>

datatype jsnum = Fin real | PInf | NInf | NaN

text \<open>\<^verbatim>\<open>isNaN(v)\<close>.\<close>

fun isNaN :: "jsnum \<Rightarrow> bool" where
  "isNaN NaN = True"
| "isNaN _ = False"

text \<open>\<^verbatim>\<open>v < c\<close> for a finite constant \<open>c\<close>: false whenever \<open>v\<close> is NaN.\<close>

fun js_lt :: "jsnum \<Rightarrow> real \<Rightarrow> bool" where
  "js_lt (Fin x) c = (x < c)"
| "js_lt NInf c = True"
| "js_lt PInf c = False"
| "js_lt NaN c = False"

text \<open>\<^verbatim>\<open>v > c\<close> for a finite constant \<open>c\<close>, the truth value of a number (0 and NaN are
  falsy), \<^verbatim>\<open>v || 0\<close> for an optional number, and the negation of a number.\<close>

fun js_gt :: "jsnum \<Rightarrow> real \<Rightarrow> bool" where
  "js_gt (Fin x) c = (c < x)"
| "js_gt PInf c = True"
| "js_gt NInf c = False"
| "js_gt NaN c = False"

fun js_truthy :: "jsnum \<Rightarrow> bool" where
  "js_truthy (Fin x) = (x \<noteq> 0)"
| "js_truthy NaN = False"
| "js_truthy _ = True"



fun js_neg :: "jsnum \<Rightarrow> jsnum" where
  "js_neg (Fin x) = Fin (- x)"
| "js_neg PInf = NInf"
| "js_neg NInf = PInf"
| "js_neg NaN = NaN"

text \<open>A finite number between two bounds.\<close>

fun in_range :: "real \<Rightarrow> real \<Rightarrow> jsnum \<Rightarrow> bool" where
  "in_range lo hi (Fin x) = (lo \<le> x \<and> x \<le> hi)"
| "in_range lo hi _ = False"

section \<open>Double arithmetic\<close>

text \<open>
  The operations on doubles that the source uses are a parameter of the model: the
  rounding \<open>rnd\<close> of a real result to a double, the four basic operations, the remainder
  \<^verbatim>\<open>%\<close>, and \<^verbatim>\<open>Math.sqrt\<close>, \<^verbatim>\<open>Math.sin\<close>, \<^verbatim>\<open>Math.cos\<close>, \<^verbatim>\<open>Math.atan2\<close>,
  \<^verbatim>\<open>Math.round\<close> and \<^verbatim>\<open>Math.PI\<close>. Nothing is assumed about them beyond the
  properties collected in \<open>ieee\<close> below, so the haversine term may round above 1 and a
  quotient may fall on either side of a rounding tie, as they do in doubles.
\<close>

record arith =
  rnd :: "real \<Rightarrow> jsnum"
  fadd :: "jsnum \<Rightarrow> jsnum \<Rightarrow> jsnum"
  fsub :: "jsnum \<Rightarrow> jsnum \<Rightarrow> jsnum"
  fmul :: "jsnum \<Rightarrow> jsnum \<Rightarrow> jsnum"
  fdiv :: "jsnum \<Rightarrow> jsnum \<Rightarrow> jsnum"
  frem :: "jsnum \<Rightarrow> jsnum \<Rightarrow> jsnum"
  msqrt :: "jsnum \<Rightarrow> jsnum"
  msin :: "jsnum \<Rightarrow> jsnum"
  mcos :: "jsnum \<Rightarrow> jsnum"
  matan2 :: "jsnum \<Rightarrow> jsnum \<Rightarrow> jsnum"
  mround :: "jsnum \<Rightarrow> jsnum"
  mPI :: jsnum

text \<open>The quotient truncated towards zero, as the remainder \<^verbatim>\<open>%\<close> uses it.\<close>

definition js_trunc :: "real \<Rightarrow> int" where
  "js_trunc z = (if 0 \<le> z then \<lfloor>z\<rfloor> else \<lceil>z\<rceil>)"

text \<open>
  Rounding to nearest: a real of magnitude up to \<open>2\<^sup>5\<^sup>3 = 9007199254740992\<close> rounds
  to a finite double, rounding is monotone, and the integers up to \<open>2\<^sup>5\<^sup>3\<close> are
  doubles.
\<close>

definition rounding_ok :: "arith \<Rightarrow> bool" where
  "rounding_ok A \<longleftrightarrow>
     (\<forall>x. \<bar>x\<bar> \<le> 9007199254740992 \<longrightarrow> (\<exists>r. rnd A x = Fin r)) \<and>
     (\<forall>x y a b. x \<le> y \<and> rnd A x = Fin a \<and> rnd A y = Fin b \<longrightarrow> a \<le> b) \<and>
     (\<forall>k::int. \<bar>real_of_int k\<bar> \<le> 9007199254740992 \<longrightarrow>
        rnd A (real_of_int k) = Fin (real_of_int k))"

text \<open>
  IEEE 754: sum, difference, product and quotient of finite doubles are the exact result
  rounded (division by zero is left open), NaN propagates, and the remainder of finite
  doubles is exact, with the sign of the dividend.
\<close>

definition basic_ops_ok :: "arith \<Rightarrow> bool" where
  "basic_ops_ok A \<longleftrightarrow>
     (\<forall>a b. fadd A (Fin a) (Fin b) = rnd A (a + b)) \<and>
     (\<forall>a b. fsub A (Fin a) (Fin b) = rnd A (a - b)) \<and>
     (\<forall>a b. fmul A (Fin a) (Fin b) = rnd A (a * b)) \<and>
     (\<forall>a b. b \<noteq> 0 \<longrightarrow> fdiv A (Fin a) (Fin b) = rnd A (a / b)) \<and>
     (\<forall>z m. m \<noteq> 0 \<longrightarrow> frem A (Fin z) (Fin m) = Fin (z - m * real_of_int (js_trunc (z / m)))) \<and>
     (\<forall>v. fadd A NaN v = NaN \<and> fadd A v NaN = NaN) \<and>
     (\<forall>v. fsub A NaN v = NaN \<and> fsub A v NaN = NaN) \<and>
     (\<forall>v. fmul A NaN v = NaN \<and> fmul A v NaN = NaN) \<and>
     (\<forall>v. fdiv A NaN v = NaN \<and> fdiv A v NaN = NaN) \<and>
     (\<forall>v. frem A NaN v = NaN \<and> frem A v NaN = NaN)"

text \<open>
  The \<^verbatim>\<open>Math\<close> functions, as far as ECMAScript fixes them: \<^verbatim>\<open>Math.PI\<close> is a double
  between 2 and 4; sine and cosine of a finite number are finite and at most 1 in
  magnitude; the square root of a negative number is NaN, of a non-negative number it is
  finite and non-negative, and positive for a positive number; \<^verbatim>\<open>atan2\<close> of finite
  numbers is finite with magnitude at most \<open>\<pi>\<close> (below 4), it is not negative for a
  positive first argument and 0 for \<open>(0, x)\<close> with \<open>x > 0\<close>, and NaN for a NaN argument;
  \<^verbatim>\<open>Math.round\<close> of a finite number \<open>w\<close> is \<open>\<lfloor>w + 1/2\<rfloor>\<close>. The values of sine, cosine
  and \<^verbatim>\<open>atan2\<close> are otherwise left open, as ECMAScript does.
\<close>

definition math_ok :: "arith \<Rightarrow> bool" where
  "math_ok A \<longleftrightarrow>
     in_range 2 4 (mPI A) \<and>
     (\<forall>r. in_range (- 1) 1 (msin A (Fin r))) \<and>
     (\<forall>r. in_range (- 1) 1 (mcos A (Fin r))) \<and>
     (\<forall>r. r < 0 \<longrightarrow> msqrt A (Fin r) = NaN) \<and>
     (\<forall>r. 0 \<le> r \<longrightarrow> (\<exists>s. msqrt A (Fin r) = Fin s \<and> 0 \<le> s \<and> (0 < r \<longrightarrow> 0 < s))) \<and>
     (\<forall>y x. \<exists>t. matan2 A (Fin y) (Fin x) = Fin t \<and> - 4 \<le> t \<and> t \<le> 4 \<and>
              (0 < y \<longrightarrow> 0 \<le> t) \<and> (y = 0 \<and> 0 < x \<longrightarrow> t = 0)) \<and>
     (\<forall>v. matan2 A NaN v = NaN \<and> matan2 A v NaN = NaN) \<and>
     (\<forall>w. mround A (Fin w) = Fin (real_of_int \<lfloor>w + 1 / 2\<rfloor>)) \<and>
     mround A NaN = NaN"

definition ieee :: "arith \<Rightarrow> bool" where
  "ieee A \<longleftrightarrow> rounding_ok A \<and> basic_ops_ok A \<and> math_ok A"

subsection \<open>Exact arithmetic\<close>

text \<open>
  One arithmetic with these properties: every real is representable and every operation
  returns the exact result. It is the arithmetic in which concrete inputs are evaluated
  below.
\<close>

definition js_round :: "real \<Rightarrow> int" where
  "js_round x = \<lfloor>x + 1 / 2\<rfloor>"

definition js_rem :: "real \<Rightarrow> real \<Rightarrow> real" where
  "js_rem x y = x - y * real_of_int (js_trunc (x / y))"

definition atan2 :: "real \<Rightarrow> real \<Rightarrow> real" where
  "atan2 y x =
     (if 0 < x then arctan (y / x)
      else if x < 0 then (if 0 \<le> y then arctan (y / x) + pi else arctan (y / x) - pi)
      else if 0 < y then pi / 2
      else if y < 0 then - (pi / 2)
      else 0)"

fun ex_add :: "jsnum \<Rightarrow> jsnum \<Rightarrow> jsnum" where
  "ex_add (Fin a) (Fin b) = Fin (a + b)"
| "ex_add NaN v = NaN"
| "ex_add v NaN = NaN"
| "ex_add PInf NInf = NaN"
| "ex_add NInf PInf = NaN"
| "ex_add PInf v = PInf"
| "ex_add NInf v = NInf"
| "ex_add (Fin a) v = v"

definition ex_sub :: "jsnum \<Rightarrow> jsnum \<Rightarrow> jsnum" where
  "ex_sub u v = ex_add u (js_neg v)"

fun ex_mul :: "jsnum \<Rightarrow> jsnum \<Rightarrow> jsnum" where
  "ex_mul (Fin a) (Fin b) = Fin (a * b)"
| "ex_mul NaN v = NaN"
| "ex_mul v NaN = NaN"
| "ex_mul (Fin a) v = (if a = 0 then NaN else if 0 < a then v else js_neg v)"
| "ex_mul v (Fin b) = (if b = 0 then NaN else if 0 < b then v else js_neg v)"
| "ex_mul PInf v = v"
| "ex_mul NInf v = js_neg v"

fun ex_div :: "jsnum \<Rightarrow> jsnum \<Rightarrow> jsnum" where
  "ex_div (Fin a) (Fin b) =
     (if b = 0 then (if a = 0 then NaN else if 0 < a then PInf else NInf) else Fin (a / b))"
| "ex_div NaN v = NaN"
| "ex_div v NaN = NaN"
| "ex_div (Fin a) v = Fin 0"
| "ex_div v (Fin b) = (if 0 \<le> b then v else js_neg v)"
| "ex_div u v = NaN"

fun ex_rem :: "jsnum \<Rightarrow> jsnum \<Rightarrow> jsnum" where
  "ex_rem (Fin z) (Fin m) = (if m = 0 then NaN else Fin (js_rem z m))"
| "ex_rem NaN v = NaN"
| "ex_rem v NaN = NaN"
| "ex_rem (Fin z) v = Fin z"
| "ex_rem u v = NaN"

fun ex_sqrt :: "jsnum \<Rightarrow> jsnum" where
  "ex_sqrt (Fin r) = (if r < 0 then NaN else Fin (sqrt r))"
| "ex_sqrt PInf = PInf"
| "ex_sqrt v = NaN"

fun ex_sin :: "jsnum \<Rightarrow> jsnum" where
  "ex_sin (Fin r) = Fin (sin r)"
| "ex_sin v = NaN"

fun ex_cos :: "jsnum \<Rightarrow> jsnum" where
  "ex_cos (Fin r) = Fin (cos r)"
| "ex_cos v = NaN"

fun ex_atan2 :: "jsnum \<Rightarrow> jsnum \<Rightarrow> jsnum" where
  "ex_atan2 (Fin y) (Fin x) = Fin (atan2 y x)"
| "ex_atan2 NaN v = NaN"
| "ex_atan2 v NaN = NaN"
| "ex_atan2 (Fin y) PInf = Fin 0"
| "ex_atan2 (Fin y) NInf = Fin (if 0 \<le> y then pi else - pi)"
| "ex_atan2 PInf (Fin x) = Fin (pi / 2)"
| "ex_atan2 NInf (Fin x) = Fin (- (pi / 2))"
| "ex_atan2 PInf PInf = Fin (pi / 4)"
| "ex_atan2 PInf NInf = Fin (3 * pi / 4)"
| "ex_atan2 NInf PInf = Fin (- (pi / 4))"
| "ex_atan2 NInf NInf = Fin (- (3 * pi / 4))"

fun ex_round :: "jsnum \<Rightarrow> jsnum" where
  "ex_round (Fin w) = Fin (real_of_int (js_round w))"
| "ex_round v = v"

definition exact_arith :: arith where
  "exact_arith =
     \<lparr>rnd = Fin, fadd = ex_add, fsub = ex_sub, fmul = ex_mul, fdiv = ex_div, frem = ex_rem,
      msqrt = ex_sqrt, msin = ex_sin, mcos = ex_cos, matan2 = ex_atan2, mround = ex_round,
      mPI = Fin pi\<rparr>"

section \<open>Telemetry calculator (\<^verbatim>\<open>src/lib/location.ts\<close>)\<close>

text \<open>Every function takes the arithmetic \<open>A\<close> as its first argument; the other arguments
  and the order of the operations are those of the source.\<close>

definition EARTH_RADIUS_KM :: real where
  "EARTH_RADIUS_KM = 6371"

definition toRadians :: "arith \<Rightarrow> jsnum \<Rightarrow> jsnum" where
  "toRadians A degrees = fmul A degrees (fdiv A (mPI A) (Fin 180))"

definition toDegrees :: "arith \<Rightarrow> jsnum \<Rightarrow> jsnum" where
  "toDegrees A radians = fmul A radians (fdiv A (Fin 180) (mPI A))"

text \<open>The haversine term \<open>a\<close> of \<^verbatim>\<open>calculateDistance\<close>.\<close>

definition haversine_a :: "arith \<Rightarrow> jsnum \<Rightarrow> jsnum \<Rightarrow> jsnum \<Rightarrow> jsnum \<Rightarrow> jsnum" where
  "haversine_a A lat1 lon1 lat2 lon2 =
     (let dLat = toRadians A (fsub A lat2 lat1);
          dLon = toRadians A (fsub A lon2 lon1)
      in fadd A
           (fmul A (msin A (fdiv A dLat (Fin 2))) (msin A (fdiv A dLat (Fin 2))))
           (fmul A
              (fmul A
                 (fmul A (mcos A (toRadians A lat1)) (mcos A (toRadians A lat2)))
                 (msin A (fdiv A dLon (Fin 2))))
              (msin A (fdiv A dLon (Fin 2)))))"

text \<open>The rest of \<^verbatim>\<open>calculateDistance\<close>, from the term \<open>a\<close> to the result: \<open>c\<close> and the
  product with the radius. \<^verbatim>\<open>Math.sqrt(1 - a)\<close> is NaN when \<open>a\<close> exceeds 1.\<close>

definition distance_of_term :: "arith \<Rightarrow> jsnum \<Rightarrow> jsnum" where
  "distance_of_term A a =
     (let c = fmul A (Fin 2) (matan2 A (msqrt A a) (msqrt A (fsub A (Fin 1) a)))
      in fmul A (Fin EARTH_RADIUS_KM) c)"

definition calculateDistance :: "arith \<Rightarrow> jsnum \<Rightarrow> jsnum \<Rightarrow> jsnum \<Rightarrow> jsnum \<Rightarrow> jsnum" where
  "calculateDistance A lat1 lon1 lat2 lon2 =
     distance_of_term A (haversine_a A lat1 lon1 lat2 lon2)"

definition calculateBearing :: "arith \<Rightarrow> jsnum \<Rightarrow> jsnum \<Rightarrow> jsnum \<Rightarrow> jsnum \<Rightarrow> jsnum" where
  "calculateBearing A lat1 lon1 lat2 lon2 =
     (let dLon = toRadians A (fsub A lon2 lon1);
          y = fmul A (msin A dLon) (mcos A (toRadians A lat2));
          x = fsub A
                (fmul A (mcos A (toRadians A lat1)) (msin A (toRadians A lat2)))
                (fmul A
                   (fmul A (msin A (toRadians A lat1)) (mcos A (toRadians A lat2)))
                   (mcos A dLon));
          bearing = toDegrees A (matan2 A y x)
      in frem A (fadd A bearing (Fin 360)) (Fin 360))"

definition directions :: "string list" where
  "directions = [''N'', ''NE'', ''E'', ''SE'', ''S'', ''SW'', ''W'', ''NW'']"

text \<open>\<^verbatim>\<open>directions[Math.round(bearing / 45) % 8]\<close>; an index that is not one of 0 to 7
  reads \<^verbatim>\<open>undefined\<close>, which is \<open>None\<close>.\<close>

definition getCompassDirection :: "arith \<Rightarrow> jsnum \<Rightarrow> string option" where
  "getCompassDirection A bearing =
     (case frem A (mround A (fdiv A bearing (Fin 45))) (Fin 8) of
        Fin i \<Rightarrow>
          if 0 \<le> i \<and> i < 8 \<and> real_of_int \<lfloor>i\<rfloor> = i then Some (directions ! nat \<lfloor>i\<rfloor>) else None
      | _ \<Rightarrow> None)"

record speed =
  kmh :: jsnum
  mph :: jsnum

text \<open>The literal \<^verbatim>\<open>0.621371\<close> is the double nearest to it.\<close>

definition mph_factor :: "arith \<Rightarrow> jsnum" where
  "mph_factor A = rnd A (621371 / 1000000)"

definition calculateSpeed :: "arith \<Rightarrow> jsnum \<Rightarrow> jsnum \<Rightarrow> speed" where
  "calculateSpeed A distanceKm timeMs =
     (if timeMs = Fin 0 then \<lparr>kmh = Fin 0, mph = Fin 0\<rparr>
      else
        let hours = fdiv A timeMs (Fin (1000 * 60 * 60));
            speedKmh = fdiv A distanceKm hours;
            speedMph = fmul A speedKmh (mph_factor A)
        in \<lparr>kmh = fdiv A (mround A (fmul A speedKmh (Fin 10))) (Fin 10),
            mph = fdiv A (mround A (fmul A speedMph (Fin 10))) (Fin 10)\<rparr>)"

text \<open>The argument is \<^verbatim>\<open>number | null\<close>; \<open>None\<close> stands for \<^verbatim>\<open>null\<close> and
  \<^verbatim>\<open>undefined\<close>.\<close>

definition determineMotionState :: "jsnum option \<Rightarrow> string" where
  "determineMotionState speedKmh =
     (case speedKmh of
        None \<Rightarrow> ''UNKNOWN''
      | Some v \<Rightarrow>
          if isNaN v then ''UNKNOWN''
          else if js_lt v 2 then ''STATIONARY''
          else if js_lt v 10 then ''WALKING''
          else ''DRIVING'')"

record LocationCalculations =
  distanceKm :: jsnum
  distanceMiles :: jsnum
  speed :: speed
  bearing :: jsnum
  compassDirection :: "string option"
  motionState :: string

definition calculateLocationData ::
  "arith \<Rightarrow> jsnum option \<Rightarrow> jsnum option \<Rightarrow> jsnum \<Rightarrow> jsnum \<Rightarrow> jsnum option
     \<Rightarrow> LocationCalculations" where
  "calculateLocationData A prevLat prevLon newLat newLon timeElapsed =
     (case (prevLat, prevLon) of
        (Some pLat, Some pLon) \<Rightarrow>
          (let dKm = calculateDistance A pLat pLon newLat newLon;
               dMiles = fmul A dKm (mph_factor A);
               sp = (case timeElapsed of
                       Some t \<Rightarrow> if js_truthy t \<and> js_gt t 0 then calculateSpeed A dKm t
                                 else \<lparr>kmh = Fin 0, mph = Fin 0\<rparr>
                     | None \<Rightarrow> \<lparr>kmh = Fin 0, mph = Fin 0\<rparr>);
               b = calculateBearing A pLat pLon newLat newLon
           in \<lparr>distanceKm = fdiv A (mround A (fmul A dKm (Fin 100))) (Fin 100),
               distanceMiles = fdiv A (mround A (fmul A dMiles (Fin 100))) (Fin 100),
               speed = sp,
               bearing = b,
               compassDirection = getCompassDirection A b,
               motionState = determineMotionState (Some (kmh sp))\<rparr>)
      | _ \<Rightarrow>
          \<lparr>distanceKm = Fin 0, distanceMiles = Fin 0, speed = \<lparr>kmh = Fin 0, mph = Fin 0\<rparr>,
           bearing = Fin 0, compassDirection = Some ''N'', motionState = ''UNKNOWN''\<rparr>)"


section \<open>Deriving the stored speed (\<^verbatim>\<open>POST /api/locations\<close>)\<close>






record derived =
  calculatedSpeedKmh :: "jsnum option"
  calculatedHeading :: "jsnum option"
  derivedMotionState :: string
  speedMph :: "jsnum option"
  storedSpeedKmh :: jsnum



section \<open>WebSocket service (\<^verbatim>\<open>mini-services/gps-ws-service/index.ts\<close>)\<close>

text \<open>
  The service keeps two maps, \<^verbatim>\<open>connectedDevices\<close> (device id to a set of socket ids) and
  \<^verbatim>\<open>socketToUser\<close> (socket id to user). A JavaScript \<^verbatim>\<open>Set\<close> is a duplicate-free list
  in insertion order; the \<^verbatim>\<open>Map\<close> that the disconnect handler iterates is an association
  list in insertion order. The rooms of the Socket.IO adapter, which decide who receives a
  broadcast, are the third component of the state: room name to the member sockets.
\<close>

record user =
  userId :: string
  email :: string

record location =
  loc_latitude :: real
  loc_longitude :: real
  loc_speedKmh :: "real option"
  loc_heading :: "real option"
  loc_motionState :: "string option"
  loc_timestamp :: "string option"

text \<open>What the server sends to one socket: an emitted event or the acknowledgement passed
  to the client's callback.\<close>

datatype message =
    ErrorMsg string
  | AuthenticatedMsg user
  | LocationUpdateMsg string location string
  | AckAuthenticated user
  | AckSuccess
  | AckFailure string

type_synonym delivery = "string \<times> message"

record server =
  connectedDevices :: "(string \<times> string list) list"
  socketToUser :: "string \<rightharpoonup> user"
  rooms :: "string \<Rightarrow> string list"

definition init_server :: server where
  "init_server = \<lparr>connectedDevices = [], socketToUser = Map.empty, rooms = (\<lambda>r. [])\<rparr>"

text \<open>\<^verbatim>\<open>Set.add\<close> and \<^verbatim>\<open>Set.delete\<close>.\<close>

definition set_add :: "'a \<Rightarrow> 'a list \<Rightarrow> 'a list" where
  "set_add x xs = (if x \<in> set xs then xs else xs @ [x])"

definition set_delete :: "'a \<Rightarrow> 'a list \<Rightarrow> 'a list" where
  "set_delete x xs = filter (\<lambda>y. y \<noteq> x) xs"

text \<open>\<^verbatim>\<open>Map.has\<close>, \<^verbatim>\<open>Map.get\<close> (which is \<open>map_of\<close>), \<^verbatim>\<open>Map.set\<close> (an existing key
  keeps its position, a new key goes to the end) and \<^verbatim>\<open>Map.delete\<close>.\<close>

definition map_has :: "('k \<times> 'v) list \<Rightarrow> 'k \<Rightarrow> bool" where
  "map_has m k = (map_of m k \<noteq> None)"

fun map_set :: "('k \<times> 'v) list \<Rightarrow> 'k \<Rightarrow> 'v \<Rightarrow> ('k \<times> 'v) list" where
  "map_set [] k v = [(k, v)]"
| "map_set ((k', v') # m) k v = (if k' = k then (k, v) # m else (k', v') # map_set m k v)"

definition map_delete :: "('k \<times> 'v) list \<Rightarrow> 'k \<Rightarrow> ('k \<times> 'v) list" where
  "map_delete m k = filter (\<lambda>e. fst e \<noteq> k) m"

text \<open>\<^verbatim>\<open>socket.join\<close>, \<^verbatim>\<open>socket.leave\<close>, and leaving every room when the socket closes.\<close>

definition join :: "(string \<Rightarrow> string list) \<Rightarrow> string \<Rightarrow> string \<Rightarrow> (string \<Rightarrow> string list)" where
  "join rs room sid = rs(room := set_add sid (rs room))"

definition leave :: "(string \<Rightarrow> string list) \<Rightarrow> string \<Rightarrow> string \<Rightarrow> (string \<Rightarrow> string list)" where
  "leave rs room sid = rs(room := set_delete sid (rs room))"

definition leaveAll :: "(string \<Rightarrow> string list) \<Rightarrow> string \<Rightarrow> (string \<Rightarrow> string list)" where
  "leaveAll rs sid = (\<lambda>room. set_delete sid (rs room))"

text \<open>\<^verbatim>\<open>callback?.(m)\<close>: the acknowledgement is sent when the client passed a callback.\<close>

definition callback :: "bool \<Rightarrow> string \<Rightarrow> message \<Rightarrow> delivery list" where
  "callback cb sid m = (if cb then [(sid, m)] else [])"

text \<open>The loop of the disconnect handler over \<^verbatim>\<open>connectedDevices.entries()\<close>: the socket
  is deleted from every set, and an entry whose set became empty is deleted.\<close>

fun disconnect_loop :: "string \<Rightarrow> (string \<times> string list) list \<Rightarrow> (string \<times> string list) list" where
  "disconnect_loop sid [] = []"
| "disconnect_loop sid ((deviceId, sockets) # rest) =
     (let sockets' = set_delete sid sockets
      in if length sockets' = 0 then disconnect_loop sid rest
         else (deviceId, sockets') # disconnect_loop sid rest)"

text \<open>\<^verbatim>\<open>socket.on('disconnect')\<close>; Socket.IO has removed the socket from its rooms.\<close>

definition disconnect :: "string \<Rightarrow> server \<Rightarrow> server" where
  "disconnect sid s =
     s\<lparr>connectedDevices := disconnect_loop sid (connectedDevices s),
       socketToUser := (socketToUser s)(sid := None),
       rooms := leaveAll (rooms s) sid\<rparr>"

text \<open>\<^verbatim>\<open>socket.on('authenticate')\<close>. The verifier \<^verbatim>\<open>verifyToken\<close> (a JWT check by an
  external library) is a parameter. The handler is taken as one step: no other event is
  interleaved while it awaits the verifier. \<^verbatim>\<open>socket.disconnect()\<close> runs the disconnect
  handler.\<close>

definition authenticate ::
  "(string \<Rightarrow> user option) \<Rightarrow> string \<Rightarrow> string \<Rightarrow> bool \<Rightarrow> server \<Rightarrow> server \<times> delivery list" where
  "authenticate verifyToken sid token cb s =
     (case verifyToken token of
        None \<Rightarrow> (disconnect sid s, [(sid, ErrorMsg ''Authentication failed'')])
      | Some u \<Rightarrow>
          (s\<lparr>socketToUser := (socketToUser s)(sid \<mapsto> u),
             rooms := join (rooms s) (''user:'' @ userId u) sid\<rparr>,
           callback cb sid (AckAuthenticated u) @ [(sid, AuthenticatedMsg u)]))"

text \<open>\<^verbatim>\<open>socket.on('device:register')\<close>.\<close>

definition device_register :: "string \<Rightarrow> string \<Rightarrow> bool \<Rightarrow> server \<Rightarrow> server \<times> delivery list" where
  "device_register sid deviceId cb s =
     (case socketToUser s sid of
        None \<Rightarrow> (s, callback cb sid (AckFailure ''Not authenticated''))
      | Some u \<Rightarrow>
          (let m1 = (if \<not> map_has (connectedDevices s) deviceId
                     then map_set (connectedDevices s) deviceId []
                     else connectedDevices s);
               m2 = (case map_of m1 deviceId of
                       Some sockets \<Rightarrow> map_set m1 deviceId (set_add sid sockets)
                     | None \<Rightarrow> m1)
           in (s\<lparr>connectedDevices := m2,
                 rooms := join (rooms s) (''device:'' @ deviceId) sid\<rparr>,
               callback cb sid AckSuccess)))"

text \<open>\<^verbatim>\<open>socket.on('location:update')\<close>. \<open>now1\<close> and \<open>now2\<close> are the two readings of the
  clock; \<^verbatim>\<open>location.timestamp || now\<close> keeps a timestamp that is present and not the
  empty string. \<^verbatim>\<open>io.to(room).emit\<close> sends to every socket in the room.\<close>

definition location_update ::
  "string \<Rightarrow> string \<Rightarrow> location \<Rightarrow> string \<Rightarrow> string \<Rightarrow> server \<Rightarrow> server \<times> delivery list" where
  "location_update sid deviceId loc now1 now2 s =
     (case socketToUser s sid of
        None \<Rightarrow> (s, [(sid, ErrorMsg ''Not authenticated'')])
      | Some u \<Rightarrow>
          (let ts = (case loc_timestamp loc of
                       Some t \<Rightarrow> if t \<noteq> [] then t else now1
                     | None \<Rightarrow> now1);
               payload = LocationUpdateMsg deviceId (loc\<lparr>loc_timestamp := Some ts\<rparr>) now2
           in (s, map (\<lambda>member. (member, payload)) (rooms s (''device:'' @ deviceId)))))"

text \<open>\<^verbatim>\<open>socket.on('device:unregister')\<close>.\<close>

definition device_unregister :: "string \<Rightarrow> string \<Rightarrow> bool \<Rightarrow> server \<Rightarrow> server \<times> delivery list" where
  "device_unregister sid deviceId cb s =
     (case socketToUser s sid of
        None \<Rightarrow> (s, callback cb sid (AckFailure ''Not authenticated''))
      | Some u \<Rightarrow>
          (let m = (case map_of (connectedDevices s) deviceId of
                      Some sockets \<Rightarrow>
                        (let sockets' = set_delete sid sockets;
                             m1 = map_set (connectedDevices s) deviceId sockets'
                         in if length sockets' = 0 then map_delete m1 deviceId else m1)
                    | None \<Rightarrow> connectedDevices s)
           in (s\<lparr>connectedDevices := m,
                 rooms := leave (rooms s) (''device:'' @ deviceId) sid\<rparr>,
               callback cb sid AckSuccess)))"

subsection \<open>Runs of the service\<close>

text \<open>The events a client socket can raise, each with the id of the socket.\<close>

datatype client_event =
    Authenticate string string bool
  | DeviceRegister string string bool
  | LocationUpdate string string location string string
  | DeviceUnregister string string bool
  | Disconnect string

fun socket_of :: "client_event \<Rightarrow> string" where
  "socket_of (Authenticate sid token cb) = sid"
| "socket_of (DeviceRegister sid deviceId cb) = sid"
| "socket_of (LocationUpdate sid deviceId loc now1 now2) = sid"
| "socket_of (DeviceUnregister sid deviceId cb) = sid"
| "socket_of (Disconnect sid) = sid"

fun step :: "(string \<Rightarrow> user option) \<Rightarrow> client_event \<Rightarrow> server \<Rightarrow> server \<times> delivery list" where
  "step verifyToken (Authenticate sid token cb) s = authenticate verifyToken sid token cb s"
| "step verifyToken (DeviceRegister sid deviceId cb) s = device_register sid deviceId cb s"
| "step verifyToken (LocationUpdate sid deviceId loc now1 now2) s =
     location_update sid deviceId loc now1 now2 s"
| "step verifyToken (DeviceUnregister sid deviceId cb) s = device_unregister sid deviceId cb s"
| "step verifyToken (Disconnect sid) s = (disconnect sid s, [])"

fun run :: "(string \<Rightarrow> user option) \<Rightarrow> client_event list \<Rightarrow> server \<Rightarrow> server" where
  "run verifyToken [] s = s"
| "run verifyToken (e # es) s = run verifyToken es (fst (step verifyToken e s))"

text \<open>The sockets an event closes: a disconnect, and an authentication that fails.\<close>

fun closes :: "(string \<Rightarrow> user option) \<Rightarrow> client_event \<Rightarrow> string list" where
  "closes verifyToken (Disconnect sid) = [sid]"
| "closes verifyToken (Authenticate sid token cb) =
     (case verifyToken token of None \<Rightarrow> [sid] | Some u \<Rightarrow> [])"
| "closes verifyToken e = []"

fun closed_sockets :: "(string \<Rightarrow> user option) \<Rightarrow> client_event list \<Rightarrow> string list" where
  "closed_sockets verifyToken [] = []"
| "closed_sockets verifyToken (e # es) = closes verifyToken e @ closed_sockets verifyToken es"

text \<open>A closed socket raises no further event (its id is not used again): \<open>gone\<close> are
  the sockets closed before the trace starts.\<close>

fun wf_trace :: "(string \<Rightarrow> user option) \<Rightarrow> string list \<Rightarrow> client_event list \<Rightarrow> bool" where
  "wf_trace verifyToken gone [] = True"
| "wf_trace verifyToken gone (e # es) =
     (socket_of e \<notin> set gone \<and> wf_trace verifyToken (closes verifyToken e @ gone) es)"

text \<open>\<^verbatim>\<open>connectedDevices.get(deviceId)\<close> read as a member list, empty for a missing key.\<close>

definition membersOf :: "server \<Rightarrow> string \<Rightarrow> string list" where
  "membersOf s deviceId =
     (case map_of (connectedDevices s) deviceId of None \<Rightarrow> [] | Some sockets \<Rightarrow> sockets)"

text \<open>Two properties of the state that every run keeps. \<open>members_ok G\<close>: no entry of
  \<^verbatim>\<open>connectedDevices\<close> has an empty set or a member in \<open>G\<close>. \<open>consistent\<close>: the keys of
  \<^verbatim>\<open>connectedDevices\<close> are distinct and the room of every device has the members that
  \<^verbatim>\<open>connectedDevices\<close> lists for it.\<close>

definition members_ok :: "string set \<Rightarrow> (string \<times> string list) list \<Rightarrow> bool" where
  "members_ok G m = (\<forall>(deviceId, sockets) \<in> set m. sockets \<noteq> [] \<and> set sockets \<inter> G = {})"

definition consistent :: "server \<Rightarrow> bool" where
  "consistent s =
     (distinct (map fst (connectedDevices s)) \<and>
      (\<forall>deviceId. rooms s (''device:'' @ deviceId) = membersOf s deviceId))"

subsection \<open>Concrete users, fixes and traces\<close>

definition alice :: user where
  "alice = \<lparr>userId = ''u1'', email = ''alice@example.org''\<rparr>"

definition bob :: user where
  "bob = \<lparr>userId = ''u2'', email = ''bob@example.org''\<rparr>"

definition demo_verify :: "string \<Rightarrow> user option" where
  "demo_verify token =
     (if token = ''tokenA'' then Some alice else if token = ''tokenB'' then Some bob else None)"

definition demo_fix :: location where
  "demo_fix = \<lparr>loc_latitude = 40, loc_longitude = - 74, loc_speedKmh = None,
               loc_heading = None, loc_motionState = Some ''DRIVING'', loc_timestamp = None\<rparr>"

definition fanout_trace :: "client_event list" where
  "fanout_trace =
     [Authenticate ''A'' ''tokenA'' True, Authenticate ''B'' ''tokenB'' True,
      Authenticate ''C'' ''tokenB'' True, DeviceRegister ''A'' ''d1'' True,
      DeviceRegister ''B'' ''d1'' True, DeviceRegister ''C'' ''d2'' True]"

definition churn_trace :: "client_event list" where
  "churn_trace =
     [Authenticate ''A'' ''tokenA'' True, Authenticate ''B'' ''tokenB'' True,
      DeviceRegister ''A'' ''d1'' True, DeviceRegister ''B'' ''d1'' True,
      DeviceRegister ''B'' ''d2'' True, DeviceRegister ''A'' ''d2'' True,
      DeviceUnregister ''A'' ''d1'' True,
      Disconnect ''B'', Authenticate ''C'' ''expired'' False]"

section \<open>Motion classification\<close>

text \<open>
  C4. The classification depends on the speed alone: a speed below 2 km/h is STATIONARY,
  a speed of at least 2 and below 10 km/h is WALKING, a speed of 10 km/h or more is
  DRIVING (exactly 2 is WALKING, exactly 10 is DRIVING); an absent speed and NaN are
  UNKNOWN.
\<close>

theorem determineMotionState_thresholds:
  "(x < 2 \<longrightarrow> determineMotionState (Some (Fin x)) = ''STATIONARY'') \<and>
   (2 \<le> x \<and> x < 10 \<longrightarrow> determineMotionState (Some (Fin x)) = ''WALKING'') \<and>
   (10 \<le> x \<longrightarrow> determineMotionState (Some (Fin x)) = ''DRIVING'') \<and>
   determineMotionState (Some (Fin 2)) = ''WALKING'' \<and>
   determineMotionState (Some (Fin 10)) = ''DRIVING'' \<and>
   determineMotionState (Some NInf) = ''STATIONARY'' \<and>
   determineMotionState (Some PInf) = ''DRIVING'' \<and>
   determineMotionState None = ''UNKNOWN'' \<and>
   determineMotionState (Some NaN) = ''UNKNOWN''"
  by (simp add: determineMotionState_def)

theorem determineMotionState_thresholds_witness:
  "(19 / 10 :: real) < 2 \<and> determineMotionState (Some (Fin (19 / 10))) = ''STATIONARY'' \<and>
   (2 :: real) \<le> 5 \<and> (5 :: real) < 10 \<and> determineMotionState (Some (Fin 5)) = ''WALKING'' \<and>
   (10 :: real) \<le> 37 \<and> determineMotionState (Some (Fin 37)) = ''DRIVING''"
  using determineMotionState_thresholds [of "19 / 10"]
    determineMotionState_thresholds [of 5] determineMotionState_thresholds [of 37]
  by simp

section \<open>Properties of the arithmetic\<close>


lemma in_range_mono: "in_range lo hi v \<Longrightarrow> lo' \<le> lo \<Longrightarrow> hi \<le> hi' \<Longrightarrow> in_range lo' hi' v"
  by (cases v) auto








lemma fdiv_fin: "ieee A \<Longrightarrow> b \<noteq> 0 \<Longrightarrow> fdiv A (Fin a) (Fin b) = rnd A (a / b)"
  by (simp add: ieee_def basic_ops_ok_def)









lemma mround_fin: "ieee A \<Longrightarrow> mround A (Fin w) = Fin (real_of_int \<lfloor>w + 1 / 2\<rfloor>)"
  by (simp add: ieee_def math_ok_def)

subsection \<open>The exact arithmetic has them\<close>

lemma exact_fields [simp]:
  "rnd exact_arith = Fin" "fadd exact_arith = ex_add" "fsub exact_arith = ex_sub"
  "fmul exact_arith = ex_mul" "fdiv exact_arith = ex_div" "frem exact_arith = ex_rem"
  "msqrt exact_arith = ex_sqrt" "msin exact_arith = ex_sin" "mcos exact_arith = ex_cos"
  "matan2 exact_arith = ex_atan2" "mround exact_arith = ex_round" "mPI exact_arith = Fin pi"
  by (simp_all add: exact_arith_def)

lemma atan2_nonneg: "0 \<le> y \<Longrightarrow> 0 \<le> atan2 y x"
proof -
  assume y: "0 \<le> y"
  have "- (pi / 2) < arctan (y / x)" by (rule arctan_lbound)
  then have "0 \<le> arctan (y / x) + pi" using pi_gt_zero by linarith
  with y show ?thesis by (simp add: atan2_def)
qed

lemma atan2_bounds: "- pi \<le> atan2 y x \<and> atan2 y x \<le> pi"
proof -
  have b: "- (pi / 2) < arctan (y / x)" "arctan (y / x) < pi / 2"
    by (rule arctan_lbound, rule arctan_ubound)
  have neg: "x < 0 \<Longrightarrow> 0 \<le> y \<Longrightarrow> arctan (y / x) \<le> 0"
    by (simp add: divide_nonneg_neg)
  have pos: "x < 0 \<Longrightarrow> y < 0 \<Longrightarrow> 0 \<le> arctan (y / x)"
    by (simp add: divide_nonpos_neg)
  show ?thesis
    using b neg pos pi_gt_zero by (auto simp: atan2_def)
qed

lemma rounding_ok_exact: "rounding_ok exact_arith"
  by (simp add: rounding_ok_def)

lemma ex_nan [simp]:
  "ex_add NaN v = NaN" "ex_add v NaN = NaN" "ex_sub NaN v = NaN" "ex_sub v NaN = NaN"
  "ex_mul NaN v = NaN" "ex_mul v NaN = NaN" "ex_div NaN v = NaN" "ex_div v NaN = NaN"
  "ex_rem NaN v = NaN" "ex_rem v NaN = NaN" "ex_atan2 NaN v = NaN" "ex_atan2 v NaN = NaN"
  by (cases v; simp add: ex_sub_def)+

lemma basic_ops_ok_exact: "basic_ops_ok exact_arith"
  by (simp add: basic_ops_ok_def ex_sub_def js_rem_def)

lemma math_ok_exact: "math_ok exact_arith"
proof -
  have "\<exists>t. ex_atan2 (Fin y) (Fin x) = Fin t \<and> - 4 \<le> t \<and> t \<le> 4 \<and>
              (0 < y \<longrightarrow> 0 \<le> t) \<and> (y = 0 \<and> 0 < x \<longrightarrow> t = 0)" for y x
  proof -
    have "- 4 \<le> atan2 y x" "atan2 y x \<le> 4"
      using atan2_bounds [of y x] pi_less_4 by linarith+
    moreover have "0 < y \<longrightarrow> 0 \<le> atan2 y x" using atan2_nonneg [of y x] by simp
    moreover have "y = 0 \<and> 0 < x \<longrightarrow> atan2 y x = 0" by (simp add: atan2_def)
    ultimately show ?thesis by simp
  qed
  moreover have "\<exists>s. ex_sqrt (Fin r) = Fin s \<and> 0 \<le> s \<and> (0 < r \<longrightarrow> 0 < s)" if "0 \<le> r" for r
    using that by simp
  ultimately show ?thesis
    using pi_ge_two pi_less_4
    by (simp add: math_ok_def js_round_def)
qed

lemma ieee_exact: "ieee exact_arith"
  by (simp add: ieee_def rounding_ok_exact basic_ops_ok_exact math_ok_exact)


section \<open>Distance and bearing\<close>















lemma calculateLocationData_prior:
  "calculateLocationData A (Some pLat) (Some pLon) newLat newLon timeElapsed =
     \<lparr>distanceKm =
        fdiv A (mround A (fmul A (calculateDistance A pLat pLon newLat newLon) (Fin 100))) (Fin 100),
      distanceMiles =
        fdiv A (mround A (fmul A (fmul A (calculateDistance A pLat pLon newLat newLon)
          (mph_factor A)) (Fin 100))) (Fin 100),
      speed = (case timeElapsed of
                 Some t \<Rightarrow> if js_truthy t \<and> js_gt t 0
                           then calculateSpeed A (calculateDistance A pLat pLon newLat newLon) t
                           else \<lparr>kmh = Fin 0, mph = Fin 0\<rparr>
               | None \<Rightarrow> \<lparr>kmh = Fin 0, mph = Fin 0\<rparr>),
      bearing = calculateBearing A pLat pLon newLat newLon,
      compassDirection = getCompassDirection A (calculateBearing A pLat pLon newLat newLon),
      motionState = determineMotionState (Some (kmh
        (case timeElapsed of
           Some t \<Rightarrow> if js_truthy t \<and> js_gt t 0
                     then calculateSpeed A (calculateDistance A pLat pLon newLat newLon) t
                     else \<lparr>kmh = Fin 0, mph = Fin 0\<rparr>
         | None \<Rightarrow> \<lparr>kmh = Fin 0, mph = Fin 0\<rparr>)))\<rparr>"
  by (cases timeElapsed) (simp_all add: calculateLocationData_def Let_def)




subsection \<open>Values in exact arithmetic\<close>

lemma toRadians_exact [simp]: "toRadians exact_arith (Fin d) = Fin (d * (pi / 180))"
  by (simp add: toRadians_def)

lemma toDegrees_exact [simp]: "toDegrees exact_arith (Fin r) = Fin (r * (180 / pi))"
  by (simp add: toDegrees_def)


lemma calculateBearing_west:
  "calculateBearing exact_arith (Fin 0) (Fin 90) (Fin 0) (Fin 0) = Fin 270"
  by (simp add: calculateBearing_def Let_def ex_sub_def atan2_def js_rem_def js_trunc_def)

lemma calculateDistance_same:
  "calculateDistance exact_arith (Fin a) (Fin b) (Fin a) (Fin b) = Fin 0"
  by (simp add: calculateDistance_def distance_of_term_def haversine_a_def Let_def ex_sub_def
      atan2_def)

lemma calculateDistance_antipode:
  "calculateDistance exact_arith (Fin 0) (Fin 0) (Fin 0) (Fin 180) = Fin (6371 * pi)"
  by (simp add: calculateDistance_def distance_of_term_def haversine_a_def Let_def ex_sub_def
      atan2_def EARTH_RADIUS_KM_def)





section \<open>Rounding\<close>

lemma rounded_output:
  assumes A: "ieee A" and n: "n \<noteq> 0" and w: "fmul A x (Fin n) = Fin w"
  shows "fdiv A (mround A (fmul A x (Fin n))) (Fin n) = rnd A (real_of_int \<lfloor>w + 1 / 2\<rfloor> / n)"
  by (simp add: w mround_fin [OF A] fdiv_fin [OF A n])

lemma calculateSpeed_nonzero:
  "t \<noteq> Fin 0 \<Longrightarrow> calculateSpeed A d t =
     \<lparr>kmh = fdiv A (mround A (fmul A (fdiv A d (fdiv A t (Fin 3600000))) (Fin 10))) (Fin 10),
      mph = fdiv A (mround A (fmul A (fmul A (fdiv A d (fdiv A t (Fin 3600000))) (mph_factor A))
              (Fin 10))) (Fin 10)\<rparr>"
  by (simp add: calculateSpeed_def Let_def)

lemma truthy_not_zero: "js_truthy t \<Longrightarrow> t \<noteq> Fin 0"
  by (cases t) auto



lemma arctan_cot:
  assumes "0 < L" "L < pi"
  shows "arctan (cos L / sin L) = pi / 2 - L"
proof -
  have "cos L / sin L = sin (pi / 2 - L) / cos (pi / 2 - L)"
    by (simp add: sin_diff cos_diff)
  then have "cos L / sin L = tan (pi / 2 - L)" by (simp add: tan_def)
  moreover have "arctan (tan (pi / 2 - L)) = pi / 2 - L"
    using assms by (intro arctan_tan) simp_all
  ultimately show ?thesis by simp
qed

lemma calculateBearing_to_east_meridian:
  "calculateBearing exact_arith (Fin 0) (Fin 0) (Fin lat2) (Fin 90) =
     Fin (js_rem (atan2 (cos (lat2 * (pi / 180))) (sin (lat2 * (pi / 180))) * (180 / pi) + 360)
       360)"
  by (simp add: calculateBearing_def Let_def ex_sub_def)

lemma calculateBearing_north_east:
  "calculateBearing exact_arith (Fin 0) (Fin 0) (Fin (44999 / 1000)) (Fin 90) = Fin (45001 / 1000)"
proof -
  define L :: real where "L = 44999 / 1000 * (pi / 180)"
  have L_pos: "0 < L" by (simp add: L_def)
  have "(44999 / 1000) * (pi / 180) < 180 * (pi / 180)"
    by (intro mult_strict_right_mono) simp_all
  then have L_lt: "L < pi" by (simp add: L_def)
  have s: "0 < sin L" using L_pos L_lt by (rule sin_gt_zero)
  have "atan2 (cos L) (sin L) = arctan (cos L / sin L)" using s by (simp add: atan2_def)
  then have a: "atan2 (cos L) (sin L) = pi / 2 - L"
    by (simp add: arctan_cot [OF L_pos L_lt])
  have "(pi / 2 - L) * (180 / pi) = 90 - 44999 / 1000"
    by (simp add: L_def field_simps)
  then have d: "atan2 (cos L) (sin L) * (180 / pi) + 360 = 405001 / 1000"
    by (simp add: a)
  have r: "js_rem (405001 / 1000) 360 = 45001 / 1000"
    by (simp add: js_rem_def js_trunc_def)
  show ?thesis
    unfolding calculateBearing_to_east_meridian L_def [symmetric] d r ..
qed

text \<open>
  C10 fails as stated: the bearing is a numeric output and is returned unrounded. From
  (0, 0) to (44.999, 90) it is 45.001 in exact arithmetic (45.000999999999976 in
  doubles), strictly between the neighbouring multiples 45.00 and 45.01 of 0.01.
\<close>

theorem bearing_not_rounded:
  "bearing (calculateLocationData exact_arith (Some (Fin 0)) (Some (Fin 0)) (Fin (44999 / 1000))
     (Fin 90) None) = Fin (45001 / 1000) \<and>
   js_gt (bearing (calculateLocationData exact_arith (Some (Fin 0)) (Some (Fin 0))
     (Fin (44999 / 1000)) (Fin 90) None)) (4500 / 100) \<and>
   js_lt (bearing (calculateLocationData exact_arith (Some (Fin 0)) (Some (Fin 0))
     (Fin (44999 / 1000)) (Fin 90) None)) (4501 / 100)"
  by (simp add: calculateLocationData_prior calculateBearing_north_east)

lemma rounded_exact_differ:
  "motionState (calculateLocationData exact_arith (Some (Fin 0)) (Some (Fin 0)) (Fin 0) (Fin 180)
      (Some (Fin (6371 * pi * 3600000 / (49 / 25))))) = ''WALKING'' \<and>
   determineMotionState (Some (fdiv exact_arith
      (calculateDistance exact_arith (Fin 0) (Fin 0) (Fin 0) (Fin 180))
      (fdiv exact_arith (Fin (6371 * pi * 3600000 / (49 / 25))) (Fin 3600000)))) = ''STATIONARY''"
proof -
  define e :: real where "e = 6371 * pi * 3600000 / (49 / 25)"
  define v where "v = fdiv exact_arith (Fin (6371 * pi)) (fdiv exact_arith (Fin e) (Fin 3600000))"
  have e_pos: "0 < e" unfolding e_def by simp
  have q: "v = Fin (49 / 25)" unfolding v_def e_def by simp
  have sp: "calculateSpeed exact_arith (Fin (6371 * pi)) (Fin e) =
      \<lparr>kmh = fdiv exact_arith (mround exact_arith (fmul exact_arith v (Fin 10))) (Fin 10),
       mph = fdiv exact_arith (mround exact_arith (fmul exact_arith
               (fmul exact_arith v (mph_factor exact_arith)) (Fin 10))) (Fin 10)\<rparr>"
    unfolding v_def using e_pos by (intro calculateSpeed_nonzero) simp
  have "kmh (calculateSpeed exact_arith (Fin (6371 * pi)) (Fin e)) = Fin 2"
    unfolding sp q by (simp add: js_round_def)
  then have "motionState (calculateLocationData exact_arith (Some (Fin 0)) (Some (Fin 0)) (Fin 0)
      (Fin 180) (Some (Fin e))) = ''WALKING''"
    using e_pos
    by (simp add: calculateLocationData_prior calculateDistance_antipode determineMotionState_def)
  moreover have "determineMotionState (Some (fdiv exact_arith
      (calculateDistance exact_arith (Fin 0) (Fin 0) (Fin 0) (Fin 180))
      (fdiv exact_arith (Fin e) (Fin 3600000)))) = ''STATIONARY''"
    unfolding calculateDistance_antipode v_def [symmetric] q
    by (simp add: determineMotionState_def)
  ultimately show ?thesis unfolding e_def by simp
qed

text \<open>
  C10, amended. With a prior position, \<open>calculateLocationData\<close> returns the distance in km
  and in miles as \<^verbatim>\<open>Math.round(x * 100) / 100\<close> and the two speeds as
  \<^verbatim>\<open>Math.round(x * 10) / 10\<close> of the computed values (0 when no positive time elapsed):
  whenever the product \<open>x * 100\<close> or \<open>x * 10\<close> is a finite number \<open>w\<close>, the output is the
  integer nearest to \<open>w\<close> divided by 100 or 10 in double arithmetic. The bearing is returned
  as \<open>calculateBearing\<close> computes it. The motion state is the classification of the rounded
  km/h speed; in exact arithmetic it differs, for some input, from the classification of the
  unrounded quotient.
\<close>

theorem calculateLocationData_rounding:
  assumes "ieee A"
  shows "(let d = calculateDistance A pLat pLon newLat newLon;
              r = calculateLocationData A (Some pLat) (Some pLon) newLat newLon t;
              q = (case t of
                     Some e \<Rightarrow> if js_truthy e \<and> js_gt e 0
                               then Some (fdiv A d (fdiv A e (Fin 3600000))) else None
                   | None \<Rightarrow> None)
          in distanceKm r = fdiv A (mround A (fmul A d (Fin 100))) (Fin 100) \<and>
             distanceMiles r =
               fdiv A (mround A (fmul A (fmul A d (mph_factor A)) (Fin 100))) (Fin 100) \<and>
             (case q of
                Some v \<Rightarrow>
                  kmh (speed r) = fdiv A (mround A (fmul A v (Fin 10))) (Fin 10) \<and>
                  mph (speed r) =
                    fdiv A (mround A (fmul A (fmul A v (mph_factor A)) (Fin 10))) (Fin 10)
              | None \<Rightarrow> kmh (speed r) = Fin 0 \<and> mph (speed r) = Fin 0) \<and>
             bearing r = calculateBearing A pLat pLon newLat newLon \<and>
             motionState r = determineMotionState (Some (kmh (speed r)))) \<and>
         (\<forall>x w. fmul A x (Fin 100) = Fin w \<longrightarrow>
            fdiv A (mround A (fmul A x (Fin 100))) (Fin 100) =
              rnd A (real_of_int \<lfloor>w + 1 / 2\<rfloor> / 100)) \<and>
         (\<forall>x w. fmul A x (Fin 10) = Fin w \<longrightarrow>
            fdiv A (mround A (fmul A x (Fin 10))) (Fin 10) =
              rnd A (real_of_int \<lfloor>w + 1 / 2\<rfloor> / 10)) \<and>
         (\<exists>a1 o1 a2 o2 e. js_gt e 0 \<and>
            motionState (calculateLocationData exact_arith (Some a1) (Some o1) a2 o2 (Some e)) \<noteq>
            determineMotionState (Some (fdiv exact_arith
              (calculateDistance exact_arith a1 o1 a2 o2)
              (fdiv exact_arith e (Fin 3600000)))))"
proof -
  define d where "d = calculateDistance A pLat pLon newLat newLon"
  define r where "r = calculateLocationData A (Some pLat) (Some pLon) newLat newLon t"
  define q where "q = (case t of
                     Some e \<Rightarrow> if js_truthy e \<and> js_gt e 0
                               then Some (fdiv A d (fdiv A e (Fin 3600000))) else None
                   | None \<Rightarrow> None)"
  have dk: "distanceKm r = fdiv A (mround A (fmul A d (Fin 100))) (Fin 100)"
    by (simp add: r_def d_def calculateLocationData_prior)
  have dm: "distanceMiles r =
      fdiv A (mround A (fmul A (fmul A d (mph_factor A)) (Fin 100))) (Fin 100)"
    by (simp add: r_def d_def calculateLocationData_prior)
  have sp: "case q of
        Some v \<Rightarrow>
          kmh (speed r) = fdiv A (mround A (fmul A v (Fin 10))) (Fin 10) \<and>
          mph (speed r) =
            fdiv A (mround A (fmul A (fmul A v (mph_factor A)) (Fin 10))) (Fin 10)
      | None \<Rightarrow> kmh (speed r) = Fin 0 \<and> mph (speed r) = Fin 0"
  proof (cases q)
    case None
    then have "speed r = \<lparr>kmh = Fin 0, mph = Fin 0\<rparr>"
      by (auto simp: q_def r_def calculateLocationData_prior split: option.splits if_splits)
    with None show ?thesis by simp
  next
    case (Some v)
    then obtain e where e: "t = Some e" "js_truthy e" "js_gt e 0"
      "v = fdiv A d (fdiv A e (Fin 3600000))"
      by (auto simp: q_def split: option.splits if_splits)
    have "speed r = calculateSpeed A d e"
      using e by (simp add: r_def d_def calculateLocationData_prior)
    with Some e show ?thesis
      by (simp add: calculateSpeed_nonzero [OF truthy_not_zero])
  qed
  have br: "bearing r = calculateBearing A pLat pLon newLat newLon"
    by (simp add: r_def calculateLocationData_prior)
  have ms: "motionState r = determineMotionState (Some (kmh (speed r)))"
    by (simp add: r_def calculateLocationData_prior)
  have r100: "\<forall>x w. fmul A x (Fin 100) = Fin w \<longrightarrow>
            fdiv A (mround A (fmul A x (Fin 100))) (Fin 100) =
              rnd A (real_of_int \<lfloor>w + 1 / 2\<rfloor> / 100)"
    using rounded_output [OF assms, of 100] by simp
  have r10: "\<forall>x w. fmul A x (Fin 10) = Fin w \<longrightarrow>
            fdiv A (mround A (fmul A x (Fin 10))) (Fin 10) =
              rnd A (real_of_int \<lfloor>w + 1 / 2\<rfloor> / 10)"
    using rounded_output [OF assms, of 10] by simp
  have ex: "\<exists>a1 o1 a2 o2 e. js_gt e 0 \<and>
            motionState (calculateLocationData exact_arith (Some a1) (Some o1) a2 o2 (Some e)) \<noteq>
            determineMotionState (Some (fdiv exact_arith
              (calculateDistance exact_arith a1 o1 a2 o2)
              (fdiv exact_arith e (Fin 3600000))))"
  proof -
    have "js_gt (Fin (6371 * pi * 3600000 / (49 / 25))) 0" by simp
    moreover have "motionState (calculateLocationData exact_arith (Some (Fin 0)) (Some (Fin 0))
          (Fin 0) (Fin 180) (Some (Fin (6371 * pi * 3600000 / (49 / 25))))) \<noteq>
        determineMotionState (Some (fdiv exact_arith
          (calculateDistance exact_arith (Fin 0) (Fin 0) (Fin 0) (Fin 180))
          (fdiv exact_arith (Fin (6371 * pi * 3600000 / (49 / 25))) (Fin 3600000))))"
      using rounded_exact_differ by simp
    ultimately show ?thesis by blast
  qed
  have "distanceKm r = fdiv A (mround A (fmul A d (Fin 100))) (Fin 100) \<and>
             distanceMiles r =
               fdiv A (mround A (fmul A (fmul A d (mph_factor A)) (Fin 100))) (Fin 100) \<and>
             (case q of
                Some v \<Rightarrow>
                  kmh (speed r) = fdiv A (mround A (fmul A v (Fin 10))) (Fin 10) \<and>
                  mph (speed r) =
                    fdiv A (mround A (fmul A (fmul A v (mph_factor A)) (Fin 10))) (Fin 10)
              | None \<Rightarrow> kmh (speed r) = Fin 0 \<and> mph (speed r) = Fin 0) \<and>
             bearing r = calculateBearing A pLat pLon newLat newLon \<and>
             motionState r = determineMotionState (Some (kmh (speed r)))"
    using dk dm sp br ms by blast
  then show ?thesis
    unfolding Let_def d_def [symmetric] r_def [symmetric] q_def [symmetric]
    using r100 r10 ex by blast
qed


theorem calculateLocationData_rounding_witness:
  "fmul exact_arith (Fin (1234 / 1000)) (Fin 100) = Fin (1234 / 10) \<and>
   fdiv exact_arith (mround exact_arith (fmul exact_arith (Fin (1234 / 1000)) (Fin 100)))
     (Fin 100) = Fin (123 / 100) \<and>
   fmul exact_arith (Fin (13 / 3)) (Fin 10) = Fin (130 / 3) \<and>
   fdiv exact_arith (mround exact_arith (fmul exact_arith (Fin (13 / 3)) (Fin 10))) (Fin 10) =
     Fin (43 / 10) \<and>
   distanceKm (calculateLocationData exact_arith (Some (Fin 40)) (Some (Fin (- 74))) (Fin 40)
     (Fin (- 74)) (Some (Fin 1000))) = Fin 0 \<and>
   kmh (speed (calculateLocationData exact_arith (Some (Fin 40)) (Some (Fin (- 74))) (Fin 40)
     (Fin (- 74)) (Some (Fin 1000)))) = Fin 0 \<and>
   kmh (speed (calculateLocationData exact_arith (Some (Fin 40)) (Some (Fin (- 74))) (Fin 40)
     (Fin (- 74)) None)) = Fin 0 \<and>
   motionState (calculateLocationData exact_arith (Some (Fin 40)) (Some (Fin (- 74))) (Fin 40)
     (Fin (- 74)) (Some (Fin 1000))) = ''STATIONARY''"
proof -
  note i1 = calculateLocationData_rounding [OF ieee_exact, where pLat = "Fin 40"
      and pLon = "Fin (- 74)" and newLat = "Fin 40" and newLon = "Fin (- 74)"
      and t = "Some (Fin 1000)"]
  note i2 = calculateLocationData_rounding [OF ieee_exact, where pLat = "Fin 40"
      and pLon = "Fin (- 74)" and newLat = "Fin 40" and newLon = "Fin (- 74)"
      and t = None]
  have w100: "fmul exact_arith (Fin (1234 / 1000)) (Fin 100) = Fin (1234 / 10)" by simp
  have w10: "fmul exact_arith (Fin (13 / 3)) (Fin 10) = Fin (130 / 3)" by simp
  have f100: "\<lfloor>(1234 / 10 :: real) + 1 / 2\<rfloor> = 123" by simp
  have f10: "\<lfloor>(130 / 3 :: real) + 1 / 2\<rfloor> = 43" by simp
  have r100: "fdiv exact_arith (mround exact_arith (fmul exact_arith (Fin (1234 / 1000))
      (Fin 100))) (Fin 100) = Fin (123 / 100)"
    using i1 [THEN conjunct2, THEN conjunct1, rule_format, OF w100] by (simp only: f100) simp
  have r10: "fdiv exact_arith (mround exact_arith (fmul exact_arith (Fin (13 / 3)) (Fin 10)))
      (Fin 10) = Fin (43 / 10)"
    using i1 [THEN conjunct2, THEN conjunct2, THEN conjunct1, rule_format, OF w10]
    by (simp only: f10) simp
  have out: "distanceKm (calculateLocationData exact_arith (Some (Fin 40)) (Some (Fin (- 74)))
      (Fin 40) (Fin (- 74)) (Some (Fin 1000))) = Fin 0 \<and>
    kmh (speed (calculateLocationData exact_arith (Some (Fin 40)) (Some (Fin (- 74))) (Fin 40)
      (Fin (- 74)) (Some (Fin 1000)))) = Fin 0 \<and>
    motionState (calculateLocationData exact_arith (Some (Fin 40)) (Some (Fin (- 74))) (Fin 40)
      (Fin (- 74)) (Some (Fin 1000))) = ''STATIONARY''"
    using i1 [THEN conjunct1]
    by (simp add: Let_def calculateDistance_same js_round_def determineMotionState_def)
  have none: "kmh (speed (calculateLocationData exact_arith (Some (Fin 40)) (Some (Fin (- 74)))
      (Fin 40) (Fin (- 74)) None)) = Fin 0"
    using i2 [THEN conjunct1] by (simp add: Let_def)
  from w100 r100 w10 r10 out none show ?thesis by blast
qed

section \<open>The stored speed\<close>









subsection \<open>Pole to pole in exact arithmetic\<close>










section \<open>The registry of the WebSocket service\<close>

subsection \<open>Sets and maps as lists\<close>

lemma set_set_add: "set (set_add x xs) = insert x (set xs)"
  by (auto simp: set_add_def)

lemma set_add_not_Nil: "set_add x xs \<noteq> []"
  by (auto simp: set_add_def)

lemma set_set_delete: "set (set_delete x xs) = set xs - {x}"
  by (auto simp: set_delete_def)

lemma set_delete_Nil: "set_delete x [] = []"
  by (simp add: set_delete_def)

lemma map_set_twice: "map_set (map_set m k v0) k v = map_set m k v"
  by (induction m) auto

lemma map_of_map_set: "map_of (map_set m k v) = (map_of m)(k \<mapsto> v)"
  by (induction m) auto

lemma set_map_set: "set (map_set m k v) \<subseteq> insert (k, v) (set m)"
  by (induction m) (auto split: if_splits)

lemma keys_map_set: "fst ` set (map_set m k v) = insert k (fst ` set m)"
proof (induction m)
  case Nil
  then show ?case by simp
next
  case (Cons e m)
  obtain k' v' where e: "e = (k', v')" by (cases e)
  show ?case using Cons e by (cases "k' = k") auto
qed

lemma distinct_map_set: "distinct (map fst m) \<Longrightarrow> distinct (map fst (map_set m k v))"
proof (induction m)
  case Nil
  then show ?case by simp
next
  case (Cons e m)
  obtain k' v' where e: "e = (k', v')" by (cases e)
  show ?case
  proof (cases "k' = k")
    case True
    with Cons.prems e show ?thesis by simp
  next
    case False
    have "k' \<notin> fst ` set (map_set m k v)"
      using Cons.prems e False by (simp add: keys_map_set)
    with Cons e False show ?thesis by simp
  qed
qed

lemma map_of_map_delete: "map_of (map_delete m k) = (map_of m)(k := None)"
  by (induction m) (auto simp: map_delete_def)

lemma set_map_delete: "set (map_delete m k) = {e \<in> set m. fst e \<noteq> k}"
  by (auto simp: map_delete_def)

lemma distinct_map_delete: "distinct (map fst m) \<Longrightarrow> distinct (map fst (map_delete m k))"
  by (simp add: map_delete_def distinct_map_filter)

lemma set_disconnect_loop:
  "set (disconnect_loop sid m) =
     {(d, set_delete sid ms) | d ms. (d, ms) \<in> set m \<and> set_delete sid ms \<noteq> []}"
  by (induction sid m rule: disconnect_loop.induct) (auto simp: Let_def)

lemma keys_disconnect_loop: "fst ` set (disconnect_loop sid m) \<subseteq> fst ` set m"
  by (force simp: set_disconnect_loop)

lemma distinct_disconnect_loop:
  "distinct (map fst m) \<Longrightarrow> distinct (map fst (disconnect_loop sid m))"
proof (induction sid m rule: disconnect_loop.induct)
  case (1 sid)
  then show ?case by simp
next
  case (2 sid deviceId sockets rest)
  have "deviceId \<notin> fst ` set (disconnect_loop sid rest)"
    using "2.prems" keys_disconnect_loop [of sid rest] by auto
  with 2 show ?case by (simp add: Let_def)
qed

lemma map_of_disconnect_loop:
  "distinct (map fst m) \<Longrightarrow>
   map_of (disconnect_loop sid m) d =
     (case map_of m d of
        None \<Rightarrow> None
      | Some ms \<Rightarrow> if set_delete sid ms = [] then None else Some (set_delete sid ms))"
proof (induction sid m rule: disconnect_loop.induct)
  case (1 sid)
  then show ?case by simp
next
  case (2 sid deviceId sockets rest)
  have absent: "map_of (disconnect_loop sid rest) deviceId = None"
    using "2.prems" keys_disconnect_loop [of sid rest]
    by (auto simp: map_of_eq_None_iff)
  show ?case
  proof (cases "d = deviceId")
    case True
    with 2 absent show ?thesis by (simp add: Let_def)
  next
    case False
    with 2 show ?thesis by (simp add: Let_def)
  qed
qed


lemma device_register_authenticated:
  assumes "socketToUser s sid = Some u"
  shows "device_register sid d cb s =
     (s\<lparr>connectedDevices := map_set (connectedDevices s) d (set_add sid (membersOf s d)),
        rooms := join (rooms s) (''device:'' @ d) sid\<rparr>,
      callback cb sid AckSuccess)"
proof (cases "map_of (connectedDevices s) d")
  case None
  then show ?thesis
    using assms
    by (simp add: device_register_def map_has_def membersOf_def Let_def map_of_map_set
        map_set_twice)
next
  case (Some ms)
  then show ?thesis
    using assms by (simp add: device_register_def map_has_def membersOf_def Let_def)
qed

lemma device_unregister_authenticated:
  assumes "socketToUser s sid = Some u"
  shows "device_unregister sid d cb s =
     (s\<lparr>connectedDevices :=
          (case map_of (connectedDevices s) d of
             None \<Rightarrow> connectedDevices s
           | Some ms \<Rightarrow>
               if set_delete sid ms = []
               then map_delete (map_set (connectedDevices s) d []) d
               else map_set (connectedDevices s) d (set_delete sid ms)),
        rooms := leave (rooms s) (''device:'' @ d) sid\<rparr>,
      callback cb sid AckSuccess)"
  using assms
  by (cases "map_of (connectedDevices s) d") (simp_all add: device_unregister_def Let_def)

lemma handler_unauthenticated:
  assumes "socketToUser s sid = None"
  shows "fst (device_register sid d cb s) = s" and "fst (device_unregister sid d cb s) = s"
  using assms by (simp_all add: device_register_def device_unregister_def)

lemma location_update_state: "fst (location_update sid d loc now1 now2 s) = s"
  by (cases "socketToUser s sid") (simp_all add: location_update_def Let_def)

subsection \<open>No closed socket and no empty set in the registry\<close>

lemma members_ok_register:
  assumes "members_ok G (connectedDevices s)" and "sid \<notin> G"
  shows "members_ok G (connectedDevices (fst (device_register sid d cb s)))"
proof (cases "socketToUser s sid")
  case None
  with assms show ?thesis by (simp add: handler_unauthenticated)
next
  case (Some u)
  have old: "set (membersOf s d) \<inter> G = {}"
  proof (cases "map_of (connectedDevices s) d")
    case None
    then show ?thesis by (simp add: membersOf_def)
  next
    case (Some ms)
    then have "(d, ms) \<in> set (connectedDevices s)" by (rule map_of_SomeD)
    with assms(1) Some show ?thesis by (auto simp: members_ok_def membersOf_def)
  qed
  have new: "set_add sid (membersOf s d) \<noteq> [] \<and> set (set_add sid (membersOf s d)) \<inter> G = {}"
    using old assms(2) by (simp add: set_add_not_Nil set_set_add)
  show ?thesis
    unfolding device_register_authenticated [OF Some]
    using assms(1) new set_map_set [of "connectedDevices s" d "set_add sid (membersOf s d)"]
    by (auto simp: members_ok_def)
qed

lemma members_ok_unregister:
  assumes "members_ok G (connectedDevices s)"
  shows "members_ok G (connectedDevices (fst (device_unregister sid d cb s)))"
proof (cases "socketToUser s sid")
  case None
  with assms show ?thesis by (simp add: handler_unauthenticated)
next
  case (Some u)
  show ?thesis
  proof (cases "map_of (connectedDevices s) d")
    case None
    with assms show ?thesis by (simp add: device_unregister_authenticated [OF Some])
  next
    case (Some ms)
    then have in_m: "(d, ms) \<in> set (connectedDevices s)" by (rule map_of_SomeD)
    show ?thesis
    proof (cases "set_delete sid ms = []")
      case True
      have "set (map_delete (map_set (connectedDevices s) d []) d) \<subseteq> set (connectedDevices s)"
        using set_map_set [of "connectedDevices s" d "[]"] by (auto simp: set_map_delete)
      with assms True Some \<open>socketToUser s sid = Some u\<close> show ?thesis
        by (auto simp: device_unregister_authenticated members_ok_def)
    next
      case False
      have "set (set_delete sid ms) \<inter> G = {}"
        using assms in_m by (auto simp: members_ok_def set_set_delete)
      with assms False Some \<open>socketToUser s sid = Some u\<close>
        set_map_set [of "connectedDevices s" d "set_delete sid ms"]
      show ?thesis
        by (auto simp: device_unregister_authenticated members_ok_def)
    qed
  qed
qed

lemma members_ok_disconnect:
  assumes "members_ok G (connectedDevices s)"
  shows "members_ok (insert sid G) (connectedDevices (disconnect sid s))"
proof -
  have "ms' \<noteq> [] \<and> set ms' \<inter> insert sid G = {}"
    if "(d, ms') \<in> set (disconnect_loop sid (connectedDevices s))" for d ms'
  proof -
    from that obtain ms where ms: "(d, ms) \<in> set (connectedDevices s)"
      "ms' = set_delete sid ms" "ms' \<noteq> []"
      by (auto simp: set_disconnect_loop)
    from assms ms(1) have "set ms \<inter> G = {}" by (auto simp: members_ok_def)
    then have "set ms' \<inter> insert sid G = {}" using ms(2) by (auto simp: set_set_delete)
    with ms(3) show ?thesis by simp
  qed
  then show ?thesis by (auto simp: members_ok_def disconnect_def)
qed

lemma members_ok_step:
  assumes "members_ok G (connectedDevices s)" and "socket_of e \<notin> G"
  shows "members_ok (set (closes v e) \<union> G) (connectedDevices (fst (step v e s)))"
proof (cases e)
  case (Authenticate sid token cb)
  show ?thesis
  proof (cases "v token")
    case None
    with Authenticate members_ok_disconnect [OF assms(1), of sid] show ?thesis
      by (simp add: authenticate_def)
  next
    case (Some u)
    with Authenticate assms(1) show ?thesis by (simp add: authenticate_def)
  qed
next
  case (DeviceRegister sid d cb)
  with assms members_ok_register [of G s sid d cb] show ?thesis by simp
next
  case (LocationUpdate sid d loc now1 now2)
  with assms(1) show ?thesis by (simp add: location_update_state)
next
  case (DeviceUnregister sid d cb)
  with assms members_ok_unregister [of G s sid d cb] show ?thesis by simp
next
  case (Disconnect sid)
  with members_ok_disconnect [OF assms(1), of sid] show ?thesis by simp
qed

lemma members_ok_run:
  "members_ok (set gone) (connectedDevices s) \<Longrightarrow> wf_trace v gone evs \<Longrightarrow>
   members_ok (set (closed_sockets v evs) \<union> set gone) (connectedDevices (run v evs s))"
proof (induction evs arbitrary: s gone)
  case Nil
  then show ?case by simp
next
  case (Cons e evs)
  have ok: "members_ok (set (closes v e @ gone)) (connectedDevices (fst (step v e s)))"
    using members_ok_step [of "set gone" s e v] Cons.prems by simp
  have wf: "wf_trace v (closes v e @ gone) evs" using Cons.prems by simp
  have "members_ok (set (closed_sockets v evs) \<union> set (closes v e @ gone))
          (connectedDevices (run v evs (fst (step v e s))))"
    using Cons.IH [OF ok wf] .
  moreover have "set (closed_sockets v evs) \<union> set (closes v e @ gone) =
      set (closed_sockets v (e # evs)) \<union> set gone"
    by auto
  ultimately show ?case by simp
qed

text \<open>
  C7. After any finite sequence of authenticate, device:register, device:unregister,
  location:update and disconnect events in which a closed socket raises no further
  event, no member set of \<open>connectedDevices\<close> contains a socket that was closed, and no
  device with an empty member set remains in \<open>connectedDevices\<close>.
\<close>

theorem registry_membership_invariant:
  assumes "wf_trace verifyToken [] evs"
  shows "(\<forall>(deviceId, sockets) \<in> set (connectedDevices (run verifyToken evs init_server)).
            sockets \<noteq> [] \<and>
            (\<forall>sid \<in> set sockets. sid \<notin> set (closed_sockets verifyToken evs))) \<and>
         (\<forall>deviceId. \<forall>sid \<in> set (membersOf (run verifyToken evs init_server) deviceId).
            sid \<notin> set (closed_sockets verifyToken evs))"
proof -
  have "members_ok (set []) (connectedDevices init_server)"
    by (simp add: members_ok_def init_server_def)
  from members_ok_run [OF this assms]
  have ok: "members_ok (set (closed_sockets verifyToken evs))
              (connectedDevices (run verifyToken evs init_server))"
    by simp
  then have entries: "\<forall>(deviceId, sockets) \<in> set (connectedDevices (run verifyToken evs init_server)).
            sockets \<noteq> [] \<and>
            (\<forall>sid \<in> set sockets. sid \<notin> set (closed_sockets verifyToken evs))"
    by (auto simp: members_ok_def)
  have "\<forall>sid \<in> set (membersOf (run verifyToken evs init_server) deviceId).
            sid \<notin> set (closed_sockets verifyToken evs)" for deviceId
  proof (cases "map_of (connectedDevices (run verifyToken evs init_server)) deviceId")
    case None
    then show ?thesis by (simp add: membersOf_def)
  next
    case (Some ms)
    then have "(deviceId, ms) \<in> set (connectedDevices (run verifyToken evs init_server))"
      by (rule map_of_SomeD)
    with entries Some show ?thesis by (auto simp: membersOf_def)
  qed
  with entries show ?thesis by blast
qed

lemmas handler_defs = authenticate_def device_register_def device_unregister_def
  location_update_def disconnect_def callback_def join_def leave_def leaveAll_def
  set_add_def set_delete_def map_has_def map_delete_def init_server_def demo_verify_def

theorem registry_membership_invariant_witness:
  "wf_trace demo_verify [] churn_trace \<and>
   connectedDevices (run demo_verify churn_trace init_server) = [(''d2'', [''A''])] \<and>
   closed_sockets demo_verify churn_trace = [''B'', ''C''] \<and>
   ''A'' \<notin> set (closed_sockets demo_verify churn_trace)"
proof -
  have wf: "wf_trace demo_verify [] churn_trace"
    by (simp add: churn_trace_def handler_defs)
  have st: "connectedDevices (run demo_verify churn_trace init_server) = [(''d2'', [''A''])]"
    by (simp add: churn_trace_def handler_defs Let_def)
  have cl: "closed_sockets demo_verify churn_trace = [''B'', ''C'']"
    by (simp add: churn_trace_def handler_defs)
  have "''A'' \<notin> set (closed_sockets demo_verify churn_trace)"
    using registry_membership_invariant [OF wf] unfolding st by simp
  with wf st cl show ?thesis by blast
qed

subsection \<open>Rooms and registry agree\<close>

lemma membersOf_register:
  assumes "socketToUser s sid = Some u"
  shows "membersOf (fst (device_register sid d cb s)) d' =
     (if d' = d then set_add sid (membersOf s d) else membersOf s d')"
  unfolding device_register_authenticated [OF assms]
  by (simp add: membersOf_def map_of_map_set)

lemma membersOf_unregister:
  assumes "socketToUser s sid = Some u"
  shows "membersOf (fst (device_unregister sid d cb s)) d' =
     (if d' = d then set_delete sid (membersOf s d) else membersOf s d')"
  unfolding device_unregister_authenticated [OF assms]
  by (cases "map_of (connectedDevices s) d")
     (simp_all add: membersOf_def map_of_map_set map_of_map_delete set_delete_Nil)

lemma membersOf_disconnect:
  assumes "distinct (map fst (connectedDevices s))"
  shows "membersOf (disconnect sid s) d = set_delete sid (membersOf s d)"
  using map_of_disconnect_loop [OF assms, of sid d]
  by (cases "map_of (connectedDevices s) d")
     (simp_all add: membersOf_def disconnect_def set_delete_Nil)

lemma consistent_init: "consistent init_server"
  by (simp add: consistent_def init_server_def membersOf_def)

lemma consistent_disconnect:
  assumes "consistent s"
  shows "consistent (disconnect sid s)"
proof -
  have d: "distinct (map fst (connectedDevices s))" using assms by (simp add: consistent_def)
  have "distinct (map fst (connectedDevices (disconnect sid s)))"
    using d by (simp add: disconnect_def distinct_disconnect_loop)
  moreover have "rooms (disconnect sid s) (''device:'' @ dev) = membersOf (disconnect sid s) dev"
    for dev
    using assms by (simp add: membersOf_disconnect [OF d]) (simp add: disconnect_def leaveAll_def consistent_def)
  ultimately show ?thesis by (simp add: consistent_def)
qed

lemma consistent_authenticate:
  assumes "consistent s"
  shows "consistent (fst (authenticate v sid token cb s))"
proof (cases "v token")
  case None
  with consistent_disconnect [OF assms, of sid] show ?thesis by (simp add: authenticate_def)
next
  case (Some u)
  with assms show ?thesis
    by (simp add: authenticate_def consistent_def join_def membersOf_def)
qed

lemma consistent_register:
  assumes "consistent s"
  shows "consistent (fst (device_register sid d cb s))"
proof (cases "socketToUser s sid")
  case None
  with assms show ?thesis by (simp add: handler_unauthenticated)
next
  case (Some u)
  have "distinct (map fst (connectedDevices (fst (device_register sid d cb s))))"
    using assms by (simp add: device_register_authenticated [OF Some] consistent_def distinct_map_set)
  moreover have "rooms (fst (device_register sid d cb s)) (''device:'' @ dev) =
      membersOf (fst (device_register sid d cb s)) dev" for dev
    using assms
    by (simp add: membersOf_register [OF Some])
       (simp add: device_register_authenticated [OF Some] join_def consistent_def)
  ultimately show ?thesis by (simp add: consistent_def)
qed

lemma consistent_unregister:
  assumes "consistent s"
  shows "consistent (fst (device_unregister sid d cb s))"
proof (cases "socketToUser s sid")
  case None
  with assms show ?thesis by (simp add: handler_unauthenticated)
next
  case (Some u)
  have "distinct (map fst (connectedDevices (fst (device_unregister sid d cb s))))"
    using assms
    by (cases "map_of (connectedDevices s) d")
       (simp_all add: device_unregister_authenticated [OF Some] consistent_def distinct_map_set
          distinct_map_delete)
  moreover have "rooms (fst (device_unregister sid d cb s)) (''device:'' @ dev) =
      membersOf (fst (device_unregister sid d cb s)) dev" for dev
    using assms
    by (simp add: membersOf_unregister [OF Some])
       (simp add: device_unregister_authenticated [OF Some] leave_def consistent_def)
  ultimately show ?thesis by (simp add: consistent_def)
qed

lemma consistent_step: "consistent s \<Longrightarrow> consistent (fst (step v e s))"
  by (cases e)
     (simp_all add: consistent_authenticate consistent_register consistent_unregister
        consistent_disconnect location_update_state)

lemma consistent_run: "consistent s \<Longrightarrow> consistent (run v evs s)"
  by (induction evs arbitrary: s) (simp_all add: consistent_step)

lemma location_update_authenticated:
  assumes "socketToUser s sid = Some u"
  shows "location_update sid d loc now1 now2 s =
     (s, map (\<lambda>member. (member,
             LocationUpdateMsg d
               (loc\<lparr>loc_timestamp :=
                     Some (case loc_timestamp loc of
                             Some t \<Rightarrow> if t \<noteq> [] then t else now1
                           | None \<Rightarrow> now1)\<rparr>) now2))
           (rooms s (''device:'' @ d)))"
  using assms by (simp add: location_update_def Let_def)

text \<open>
  C6. In every state the service can reach, a location update sent by an authenticated
  socket is delivered to exactly the sockets that \<open>connectedDevices\<close> lists for the
  device, once each, the sender included when it is a member. With A and B registered
  for \<open>d1\<close> and C for \<open>d2\<close>, an update for \<open>d1\<close> sent by A goes to A and B and not
  to C.
\<close>

theorem publish_fanout:
  assumes "socketToUser (run verifyToken evs init_server) sid = Some u"
  shows "snd (location_update sid deviceId loc now1 now2 (run verifyToken evs init_server)) =
           map (\<lambda>member. (member,
                  LocationUpdateMsg deviceId
                    (loc\<lparr>loc_timestamp :=
                          Some (case loc_timestamp loc of
                                  Some t \<Rightarrow> if t \<noteq> [] then t else now1
                                | None \<Rightarrow> now1)\<rparr>) now2))
             (membersOf (run verifyToken evs init_server) deviceId) \<and>
         map fst (snd (location_update sid deviceId loc now1 now2
                        (run verifyToken evs init_server))) =
           membersOf (run verifyToken evs init_server) deviceId"
proof -
  have "consistent (run verifyToken evs init_server)"
    using consistent_init by (rule consistent_run)
  then have "rooms (run verifyToken evs init_server) (''device:'' @ deviceId) =
      membersOf (run verifyToken evs init_server) deviceId"
    by (simp add: consistent_def)
  then show ?thesis
    by (simp add: location_update_authenticated [OF assms] comp_def)
qed

theorem publish_fanout_witness:
  "socketToUser (run demo_verify fanout_trace init_server) ''A'' = Some alice \<and>
   membersOf (run demo_verify fanout_trace init_server) ''d1'' = [''A'', ''B''] \<and>
   membersOf (run demo_verify fanout_trace init_server) ''d2'' = [''C''] \<and>
   map fst (snd (location_update ''A'' ''d1'' demo_fix ''t1'' ''t2''
                  (run demo_verify fanout_trace init_server))) = [''A'', ''B''] \<and>
   ''C'' \<notin> set (map fst (snd (location_update ''A'' ''d1'' demo_fix ''t1'' ''t2''
                  (run demo_verify fanout_trace init_server))))"
proof -
  have a: "socketToUser (run demo_verify fanout_trace init_server) ''A'' = Some alice"
    by (simp add: fanout_trace_def handler_defs Let_def)
  have m: "connectedDevices (run demo_verify fanout_trace init_server) =
      [(''d1'', [''A'', ''B'']), (''d2'', [''C''])]"
    by (simp add: fanout_trace_def handler_defs Let_def)
  have m1: "membersOf (run demo_verify fanout_trace init_server) ''d1'' = [''A'', ''B'']"
    and m2: "membersOf (run demo_verify fanout_trace init_server) ''d2'' = [''C'']"
    by (simp_all add: membersOf_def m)
  show ?thesis
    using a m1 m2 publish_fanout [OF a, of "''d1''" demo_fix "''t1''" "''t2''"] by simp
qed

section \<open>Publishing and authentication\<close>

text \<open>
  C5. A location update from a socket with no bound user is answered with the error
  \<open>Not authenticated\<close>, sent to that socket only; nothing is broadcast and the state of
  the service is the one before.
\<close>

theorem unauthenticated_publish_rejected:
  assumes "socketToUser s sid = None"
  shows "location_update sid deviceId loc now1 now2 s = (s, [(sid, ErrorMsg ''Not authenticated'')])"
  using assms by (simp add: location_update_def)

theorem unauthenticated_publish_rejected_witness:
  "socketToUser (run demo_verify fanout_trace init_server) ''Z'' = None \<and>
   membersOf (run demo_verify fanout_trace init_server) ''d1'' = [''A'', ''B''] \<and>
   snd (location_update ''Z'' ''d1'' demo_fix ''t1'' ''t2''
          (run demo_verify fanout_trace init_server)) = [(''Z'', ErrorMsg ''Not authenticated'')] \<and>
   fst (location_update ''Z'' ''d1'' demo_fix ''t1'' ''t2''
          (run demo_verify fanout_trace init_server)) = run demo_verify fanout_trace init_server"
proof -
  have z: "socketToUser (run demo_verify fanout_trace init_server) ''Z'' = None"
    by (simp add: fanout_trace_def handler_defs Let_def)
  have m: "connectedDevices (run demo_verify fanout_trace init_server) =
      [(''d1'', [''A'', ''B'']), (''d2'', [''C''])]"
    by (simp add: fanout_trace_def handler_defs Let_def)
  have m1: "membersOf (run demo_verify fanout_trace init_server) ''d1'' = [''A'', ''B'']"
    by (simp add: membersOf_def m)
  show ?thesis
    using z m1 unauthenticated_publish_rejected [OF z, of "''d1''" demo_fix "''t1''" "''t2''"]
    by simp
qed

text \<open>
  C2 fails as stated. A and B are registered for \<open>d1\<close> and nothing was published
  before. A sends a fix carrying the motion state DRIVING and no speed: both receive the
  fix as sent, motion state DRIVING, with the receipt time as timestamp. The calculator's
  result for a first fix has the motion state UNKNOWN. The state of the service is
  unchanged: nothing is cached.
\<close>

theorem publish_not_enriched:
  "snd (location_update ''A'' ''d1'' demo_fix ''t1'' ''t2''
          (run demo_verify fanout_trace init_server)) =
     [(''A'', LocationUpdateMsg ''d1'' (demo_fix\<lparr>loc_timestamp := Some ''t1''\<rparr>) ''t2''),
      (''B'', LocationUpdateMsg ''d1'' (demo_fix\<lparr>loc_timestamp := Some ''t1''\<rparr>) ''t2'')] \<and>
   loc_motionState (demo_fix\<lparr>loc_timestamp := Some ''t1''\<rparr>) = Some ''DRIVING'' \<and>
   motionState (calculateLocationData exact_arith None None (Fin (loc_latitude demo_fix))
     (Fin (loc_longitude demo_fix)) None) = ''UNKNOWN'' \<and>
   fst (location_update ''A'' ''d1'' demo_fix ''t1'' ''t2''
          (run demo_verify fanout_trace init_server)) = run demo_verify fanout_trace init_server"
proof -
  have a: "socketToUser (run demo_verify fanout_trace init_server) ''A'' = Some alice"
    by (simp add: fanout_trace_def handler_defs Let_def)
  have r: "rooms (run demo_verify fanout_trace init_server) ''device:d1'' = [''A'', ''B'']"
    by (simp add: fanout_trace_def handler_defs Let_def)
  have "snd (location_update ''A'' ''d1'' demo_fix ''t1'' ''t2''
          (run demo_verify fanout_trace init_server)) =
     [(''A'', LocationUpdateMsg ''d1'' (demo_fix\<lparr>loc_timestamp := Some ''t1''\<rparr>) ''t2''),
      (''B'', LocationUpdateMsg ''d1'' (demo_fix\<lparr>loc_timestamp := Some ''t1''\<rparr>) ''t2'')]"
    using r by (simp add: location_update_authenticated [OF a] demo_fix_def)
  moreover have "loc_motionState (demo_fix\<lparr>loc_timestamp := Some ''t1''\<rparr>) = Some ''DRIVING''"
    by (simp add: demo_fix_def)
  moreover have "motionState (calculateLocationData exact_arith None None
      (Fin (loc_latitude demo_fix)) (Fin (loc_longitude demo_fix)) None) = ''UNKNOWN''"
    by (simp add: calculateLocationData_def)
  ultimately show ?thesis by (simp add: location_update_state)
qed

text \<open>
  C2, amended. A location update sent by an authenticated socket is delivered to the
  members of the device's room as the fix the sender supplied, unchanged except that a
  missing or empty timestamp is replaced by the receipt time, together with the receipt
  time as \<open>updatedAt\<close>. The calculator is not called and nothing is stored: the state of
  the service is the one before. A room without members receives no send.
\<close>

theorem publish_passes_fix_through:
  assumes "socketToUser s sid = Some u"
  shows "fst (location_update sid deviceId loc now1 now2 s) = s \<and>
         snd (location_update sid deviceId loc now1 now2 s) =
           map (\<lambda>member. (member,
                  LocationUpdateMsg deviceId
                    (loc\<lparr>loc_timestamp :=
                          Some (case loc_timestamp loc of
                                  Some t \<Rightarrow> if t \<noteq> [] then t else now1
                                | None \<Rightarrow> now1)\<rparr>) now2))
             (rooms s (''device:'' @ deviceId)) \<and>
         (rooms s (''device:'' @ deviceId) = [] \<longrightarrow>
            snd (location_update sid deviceId loc now1 now2 s) = [])"
  by (simp add: location_update_authenticated [OF assms])

theorem publish_passes_fix_through_witness:
  "socketToUser (run demo_verify fanout_trace init_server) ''A'' = Some alice \<and>
   rooms (run demo_verify fanout_trace init_server) ''device:d9'' = [] \<and>
   snd (location_update ''A'' ''d9'' demo_fix ''t1'' ''t2''
          (run demo_verify fanout_trace init_server)) = [] \<and>
   fst (location_update ''A'' ''d9'' demo_fix ''t1'' ''t2''
          (run demo_verify fanout_trace init_server)) = run demo_verify fanout_trace init_server"
proof -
  have a: "socketToUser (run demo_verify fanout_trace init_server) ''A'' = Some alice"
    by (simp add: fanout_trace_def handler_defs Let_def)
  have r: "rooms (run demo_verify fanout_trace init_server) ''device:d9'' = []"
    by (simp add: fanout_trace_def handler_defs Let_def)
  show ?thesis
    using a r publish_passes_fix_through [OF a, of "''d9''" demo_fix "''t1''" "''t2''"]
    by simp
qed

text \<open>
  C1 fails as stated. Socket A authenticates with Alice's token and then with Bob's: the
  second call is acknowledged like the first, and A is then bound to Bob.
\<close>

theorem reauthenticate_rebinds:
  "socketToUser (fst (authenticate demo_verify ''A'' ''tokenA'' True init_server)) ''A'' = Some alice \<and>
   snd (authenticate demo_verify ''A'' ''tokenB'' True
          (fst (authenticate demo_verify ''A'' ''tokenA'' True init_server))) =
     [(''A'', AckAuthenticated bob), (''A'', AuthenticatedMsg bob)] \<and>
   socketToUser (fst (authenticate demo_verify ''A'' ''tokenB'' True
          (fst (authenticate demo_verify ''A'' ''tokenA'' True init_server)))) ''A'' = Some bob \<and>
   bob \<noteq> alice"
  by (simp add: authenticate_def demo_verify_def callback_def init_server_def alice_def bob_def)

text \<open>
  C1, amended. On a connection that is already authenticated, a further authenticate
  call with a token that verifies is accepted like the first one: it is acknowledged,
  and the connection is then bound to the identity of the new token; the bindings of
  the other connections and the registry are untouched. A call with a token that does
  not verify is answered with \<open>Authentication failed\<close> and the connection is closed,
  which removes its binding. No call is rejected for being a second one.
\<close>

theorem authenticate_binds_latest:
  assumes "socketToUser s sid = Some u0"
  shows "(verifyToken token = Some u \<longrightarrow>
            socketToUser (fst (authenticate verifyToken sid token cb s)) sid = Some u \<and>
            snd (authenticate verifyToken sid token cb s) =
              callback cb sid (AckAuthenticated u) @ [(sid, AuthenticatedMsg u)] \<and>
            connectedDevices (fst (authenticate verifyToken sid token cb s)) = connectedDevices s \<and>
            (\<forall>sid'. sid' \<noteq> sid \<longrightarrow>
               socketToUser (fst (authenticate verifyToken sid token cb s)) sid' =
               socketToUser s sid')) \<and>
         (verifyToken token = None \<longrightarrow>
            authenticate verifyToken sid token cb s =
              (disconnect sid s, [(sid, ErrorMsg ''Authentication failed'')]) \<and>
            socketToUser (fst (authenticate verifyToken sid token cb s)) sid = None)"
  by (simp add: authenticate_def disconnect_def)

theorem authenticate_binds_latest_witness:
  "socketToUser (fst (authenticate demo_verify ''A'' ''tokenA'' False init_server)) ''A'' = Some alice \<and>
   demo_verify ''tokenB'' = Some bob \<and>
   socketToUser (fst (authenticate demo_verify ''A'' ''tokenB'' False
          (fst (authenticate demo_verify ''A'' ''tokenA'' False init_server)))) ''A'' = Some bob \<and>
   demo_verify ''expired'' = None \<and>
   socketToUser (fst (authenticate demo_verify ''A'' ''expired'' False
          (fst (authenticate demo_verify ''A'' ''tokenA'' False init_server)))) ''A'' = None"
proof -
  have a: "socketToUser (fst (authenticate demo_verify ''A'' ''tokenA'' False init_server)) ''A''
      = Some alice"
    by (simp add: authenticate_def demo_verify_def init_server_def)
  have b: "demo_verify ''tokenB'' = Some bob" by (simp add: demo_verify_def)
  have e: "demo_verify ''expired'' = None" by (simp add: demo_verify_def)
  have x: "socketToUser (fst (authenticate demo_verify ''A'' ''tokenB'' False
          (fst (authenticate demo_verify ''A'' ''tokenA'' False init_server)))) ''A'' = Some bob"
    using b authenticate_binds_latest [OF a, of demo_verify "''tokenB''" bob False] by blast
  have y: "socketToUser (fst (authenticate demo_verify ''A'' ''expired'' False
          (fst (authenticate demo_verify ''A'' ''tokenA'' False init_server)))) ''A'' = None"
    using e authenticate_binds_latest [OF a, of demo_verify "''expired''" bob False] by blast
  show ?thesis
    using a b e x y by blast
qed

end

